theory Spec2Isabelle
  imports Main
begin

section \<open>The constraint store (csp.py)\<close>

datatype error = KeyError | AssertionError | UnboundLocalError | IndexError

record ('v, 'a) csp =
  variables :: "'v list"
  domains :: "'v \<rightharpoonup> 'a list"
  binary_constraints :: "('v \<times> 'v) \<rightharpoonup> ('a \<times> 'a) set"
  backtrack_counter :: nat
  fail_counter :: nat

type_synonym ('v, 'a) assignment = "'v \<rightharpoonup> 'a"

definition is_complete :: "('v, 'a) csp \<Rightarrow> ('v, 'a) assignment \<Rightarrow> bool" where
  "is_complete c assignment = (\<forall>var \<in> set (variables c). assignment var \<noteq> None)"

definition select_unassigned_variable :: "('v, 'a) csp \<Rightarrow> ('v, 'a) assignment \<Rightarrow> 'v option" where
  "select_unassigned_variable c assignment = find (\<lambda>var. assignment var = None) (variables c)"

definition order_domain_values :: "('v, 'a) csp \<Rightarrow> 'v \<Rightarrow> error + 'a list" where
  "order_domain_values c var = (case domains c var of None \<Rightarrow> Inl KeyError | Some d \<Rightarrow> Inr d)"

definition violates :: "('v, 'a) csp \<Rightarrow> 'v \<Rightarrow> 'a \<Rightarrow> 'v \<Rightarrow> 'a \<Rightarrow> bool" where
  "violates c var1 value1 var2 value2 =
     (case binary_constraints c (var1, var2) of None \<Rightarrow> False | Some allowed \<Rightarrow> (value1, value2) \<notin> allowed)"

definition is_consistent :: "('v, 'a) csp \<Rightarrow> 'a \<Rightarrow> 'v \<Rightarrow> ('v, 'a) assignment \<Rightarrow> bool" where
  "is_consistent c val var assignment =
     (\<forall>neighbor \<in> set (variables c).
        case assignment neighbor of
          None \<Rightarrow> True
        | Some neighbor_value \<Rightarrow>
            \<not> (violates c var val neighbor neighbor_value \<or> violates c neighbor neighbor_value var val))"

function (domintros)
  backtrack :: "('v, 'a) csp \<Rightarrow> ('v, 'a) assignment \<Rightarrow> error + (('v, 'a) csp \<times> ('v, 'a) assignment option)"
and
  backtrack_values :: "('v, 'a) csp \<Rightarrow> ('v, 'a) assignment \<Rightarrow> 'v \<Rightarrow> 'a list \<Rightarrow>
     error + (('v, 'a) csp \<times> ('v, 'a) assignment option)"
where
  "backtrack c assignment =
     (let c1 = c\<lparr>backtrack_counter := backtrack_counter c + 1\<rparr> in
      if is_complete c1 assignment then Inr (c1, Some assignment)
      else case select_unassigned_variable c1 assignment of
             None \<Rightarrow> Inl KeyError
           | Some var \<Rightarrow>
               (case order_domain_values c1 var of
                  Inl e \<Rightarrow> Inl e
                | Inr vals \<Rightarrow> backtrack_values c1 assignment var vals))"
| "backtrack_values c assignment var [] = Inr (c\<lparr>fail_counter := fail_counter c + 1\<rparr>, None)"
| "backtrack_values c assignment var (val # rest) =
     (if is_consistent c val var assignment then
        (case backtrack c (assignment(var \<mapsto> val)) of
           Inl e \<Rightarrow> Inl e
         | Inr (c', Some solution) \<Rightarrow> Inr (c', Some solution)
         | Inr (c', None) \<Rightarrow> backtrack_values c' assignment var rest)
      else backtrack_values c assignment var rest)"
  by pat_completeness auto


lemma backtrack_variables_partial:
  "backtrack_backtrack_values_dom (Inl (c, a)) \<Longrightarrow>
     \<forall>c' r. backtrack c a = Inr (c', r) \<longrightarrow> variables c' = variables c"
  "backtrack_backtrack_values_dom (Inr (c, a, var, vals)) \<Longrightarrow>
     \<forall>c' r. backtrack_values c a var vals = Inr (c', r) \<longrightarrow> variables c' = variables c"
proof (induct c a and c a var vals rule: backtrack_backtrack_values.pinduct)
  case (1 c assignment)
  let ?c1 = "c\<lparr>backtrack_counter := backtrack_counter c + 1\<rparr>"
  show ?case
  proof (intro allI impI)
    fix c' r
    assume res: "backtrack c assignment = Inr (c', r)"
    show "variables c' = variables c"
    proof (cases "is_complete ?c1 assignment")
      case True
      with res 1(1) show ?thesis by (auto simp: backtrack.psimps Let_def)
    next
      case False
      with res 1(1) obtain var vals where
        sel: "select_unassigned_variable ?c1 assignment = Some var" and
        ord: "order_domain_values ?c1 var = Inr vals" and
        bv: "backtrack_values ?c1 assignment var vals = Inr (c', r)"
        by (simp add: backtrack.psimps Let_def split: option.splits sum.splits)
      from 1(2)[OF refl False sel ord] bv show ?thesis by (simp del: fun_upd_apply)
    qed
  qed
next
  case (2 c assignment var)
  then show ?case by (simp add: backtrack_values.psimps)
next
  case (3 c assignment var val rest)
  show ?case
  proof (intro allI impI)
    fix c' r
    assume res: "backtrack_values c assignment var (val # rest) = Inr (c', r)"
    show "variables c' = variables c"
    proof (cases "is_consistent c val var assignment")
      case False
      with res 3(1) have "backtrack_values c assignment var rest = Inr (c', r)"
        by (simp add: backtrack_values.psimps)
      with 3(4)[OF False] show ?thesis by blast
    next
      case True
      with res 3(1) obtain c1 r1 where b: "backtrack c (assignment(var \<mapsto> val)) = Inr (c1, r1)"
        by (simp add: backtrack_values.psimps split: sum.splits prod.splits)
      from 3(2)[OF True] b have v1: "variables c1 = variables c" by blast
      show ?thesis
      proof (cases r1)
        case None
        with res 3(1) True b have "backtrack_values c1 assignment var rest = Inr (c', r)"
          by (simp add: backtrack_values.psimps)
        with 3(3)[OF True b refl None] v1 show ?thesis by metis
      next
        case (Some res1)
        with res 3(1) True b have "c' = c1" by (simp add: backtrack_values.psimps)
        with v1 show ?thesis by simp
      qed
    qed
  qed
qed

definition unassigned :: "('v, 'a) csp \<Rightarrow> ('v, 'a) assignment \<Rightarrow> 'v set" where
  "unassigned c a = {v \<in> set (variables c). a v = None}"

lemma select_unassigned_variable_Some:
  "select_unassigned_variable c a = Some var \<Longrightarrow> var \<in> unassigned c a"
  by (auto simp: select_unassigned_variable_def unassigned_def find_Some_iff)

lemma unassigned_upd: "unassigned c (a(var \<mapsto> val)) = unassigned c a - {var}"
  by (auto simp: unassigned_def)

lemma finite_unassigned: "finite (unassigned c a)"
  by (simp add: unassigned_def)

termination backtrack
proof (relation "inv_image (less_than <*lex*> less_than)
    (\<lambda>x. case x of
        Inl (c, a) \<Rightarrow> (2 * card (unassigned c a) + 1, 0)
      | Inr (c, a, var, vals) \<Rightarrow> (2 * card (unassigned c a - {var}) + 2, length vals))", goal_cases)
  case 1
  show ?case by (intro wf_inv_image wf_lex_prod wf_less_than)
next
  case (2 c assignment x x2 b)
  from 2(3) have "x2 \<in> unassigned x assignment"
    by (rule select_unassigned_variable_Some)
  moreover have "unassigned x assignment = unassigned c assignment"
    using 2(1) by (simp add: unassigned_def)
  ultimately have "x2 \<in> unassigned c assignment" by simp
  then have "card (unassigned c assignment - {x2}) < card (unassigned c assignment)"
    by (rule card_Diff1_less[OF finite_unassigned])
  then show ?case using \<open>unassigned x assignment = unassigned c assignment\<close> by simp
next
  case (3 c assignment var val rest)
  show ?case by (simp add: unassigned_upd)
next
  case (4 c assignment var val rest b x y)
  from 4(2,3,4) have "backtrack c (assignment(var \<mapsto> val)) = Inr (x, y)" by simp
  with backtrack_variables_partial(1)[OF 4(5)] have "variables x = variables c"
    by blast
  then have "unassigned x assignment = unassigned c assignment"
    by (simp add: unassigned_def)
  then show ?case by simp
next
  case (5 c assignment var val rest)
  show ?case by simp
qed


declare backtrack.simps [simp del]

definition constraint_pairs :: "'a list \<Rightarrow> 'a list \<Rightarrow> ('a \<times> 'a) set" where
  "constraint_pairs d1 d2 =
     set (concat (map (\<lambda>value1. concat (map (\<lambda>value2.
            if value1 \<noteq> value2 then [(value1, value2), (value2, value1)] else []) d2)) d1))"

fun add_edges :: "('v \<rightharpoonup> 'a list) \<Rightarrow> (('v \<times> 'v) \<rightharpoonup> ('a \<times> 'a) set) \<Rightarrow> ('v \<times> 'v) list \<Rightarrow>
    error + (('v \<times> 'v) \<rightharpoonup> ('a \<times> 'a) set)" where
  "add_edges doms bc [] = Inr bc"
| "add_edges doms bc ((variable1, variable2) # edges) =
     (case doms variable1 of
        None \<Rightarrow> Inl KeyError
      | Some d1 \<Rightarrow>
          if d1 = [] then add_edges doms (bc((variable1, variable2) \<mapsto> {})) edges
          else (case doms variable2 of
                  None \<Rightarrow> Inl KeyError
                | Some d2 \<Rightarrow>
                    add_edges doms (bc((variable1, variable2) \<mapsto> constraint_pairs d1 d2)) edges))"

definition CSP :: "'v list \<Rightarrow> ('v \<rightharpoonup> 'a list) \<Rightarrow> ('v \<times> 'v) list \<Rightarrow> error + ('v, 'a) csp" where
  "CSP vars doms edges =
     (case add_edges doms Map.empty edges of
        Inl e \<Rightarrow> Inl e
      | Inr bc \<Rightarrow> Inr \<lparr>variables = vars, domains = doms, binary_constraints = bc,
                       backtrack_counter = 0, fail_counter = 0\<rparr>)"

definition allowed_pairs :: "('v, 'a) csp \<Rightarrow> 'v \<Rightarrow> 'v \<Rightarrow> ('a \<times> 'a) set" where
  "allowed_pairs c Xi Xj = (case binary_constraints c (Xi, Xj) of None \<Rightarrow> {} | Some allowed \<Rightarrow> allowed)"

fun revise_loop :: "('v, 'a) csp \<Rightarrow> 'v \<Rightarrow> 'v \<Rightarrow> 'a list \<Rightarrow> bool \<Rightarrow> error + (('v, 'a) csp \<times> bool)" where
  "revise_loop c Xi Xj [] revised = Inr (c, revised)"
| "revise_loop c Xi Xj (x # xs) revised =
     (case domains c Xj of
        None \<Rightarrow> Inl KeyError
      | Some dj \<Rightarrow>
          if \<not> (\<exists>y \<in> set dj. (x, y) \<in> allowed_pairs c Xi Xj) then
            (case domains c Xi of
               None \<Rightarrow> Inl KeyError
             | Some di \<Rightarrow>
                 revise_loop (c\<lparr>domains := (domains c)(Xi \<mapsto> removeAll x di)\<rparr>) Xi Xj xs True)
          else revise_loop c Xi Xj xs revised)"

definition revise :: "('v, 'a) csp \<Rightarrow> 'v \<Rightarrow> 'v \<Rightarrow> error + (('v, 'a) csp \<times> bool)" where
  "revise c Xi Xj =
     (case domains c Xi of None \<Rightarrow> Inl KeyError | Some di \<Rightarrow> revise_loop c Xi Xj di False)"

definition initial_queue :: "('v, 'a) csp \<Rightarrow> ('v \<times> 'v) list" where
  "initial_queue c =
     [(Xi, Xj). Xi \<leftarrow> variables c, Xj \<leftarrow> variables c, binary_constraints c (Xi, Xj) \<noteq> None]"

definition requeue :: "('v, 'a) csp \<Rightarrow> 'v \<Rightarrow> 'v \<Rightarrow> ('v \<times> 'v) list" where
  "requeue c Xi Xj =
     [(Xk, Xi). Xk \<leftarrow> variables c, Xk \<noteq> Xj \<and> binary_constraints c (Xk, Xi) \<noteq> None]"

definition dsize :: "('v, 'a) csp \<Rightarrow> 'v \<Rightarrow> nat" where
  "dsize c v = (case domains c v of None \<Rightarrow> 0 | Some d \<Rightarrow> length d)"

lemma revise_loop_frame:
  "revise_loop c Xi Xj xs revised = Inr (c', r) \<Longrightarrow>
     variables c' = variables c \<and> binary_constraints c' = binary_constraints c \<and>
     backtrack_counter c' = backtrack_counter c \<and> fail_counter c' = fail_counter c"
  by (induction c Xi Xj xs revised rule: revise_loop.induct)
     (auto split: option.splits if_splits)

lemma revise_loop_dsize:
  "revise_loop c Xi Xj xs revised = Inr (c', r) \<Longrightarrow> dsize c' v \<le> dsize c v"
proof (induction c Xi Xj xs revised rule: revise_loop.induct)
  case (1 c Xi Xj revised)
  then show ?case by simp
next
  case (2 c Xi Xj x xs revised)
  show ?case
  proof (cases "domains c Xj")
    case None
    with 2(3) show ?thesis by simp
  next
    case (Some dj)
    show ?thesis
    proof (cases "\<exists>y \<in> set dj. (x, y) \<in> allowed_pairs c Xi Xj")
      case True
      with 2(2)[OF Some] 2(3) Some show ?thesis by simp
    next
      case False
      with 2(3) Some obtain di where di: "domains c Xi = Some di"
        by (auto split: option.splits)
      let ?c1 = "c\<lparr>domains := (domains c)(Xi \<mapsto> removeAll x di)\<rparr>"
      from 2(3) Some False di have "revise_loop ?c1 Xi Xj xs True = Inr (c', r)" by simp
      from 2(1)[OF Some False di this] have "dsize c' v \<le> dsize ?c1 v" .
      also have "dsize ?c1 v \<le> dsize c v"
        using di by (auto simp: dsize_def length_removeAll_less_eq)
      finally show ?thesis .
    qed
  qed
qed

lemma revise_loop_strict:
  "revise_loop c Xi Xj xs revised = Inr (c', r) \<Longrightarrow> domains c Xi = Some di \<Longrightarrow>
     set xs \<subseteq> set di \<Longrightarrow> r \<Longrightarrow> revised \<or> dsize c' Xi < dsize c Xi"
proof (induction c Xi Xj xs revised arbitrary: di rule: revise_loop.induct)
  case (1 c Xi Xj revised)
  then show ?case by simp
next
  case (2 c Xi Xj x xs revised)
  show ?case
  proof (cases "domains c Xj")
    case None
    with 2(3) show ?thesis by simp
  next
    case (Some dj)
    show ?thesis
    proof (cases "\<exists>y \<in> set dj. (x, y) \<in> allowed_pairs c Xi Xj")
      case True
      with 2(3) Some have "revise_loop c Xi Xj xs revised = Inr (c', r)" by simp
      from 2(2)[OF Some _ this 2(4) _ 2(6)] True 2(5) show ?thesis by auto
    next
      case False
      let ?c1 = "c\<lparr>domains := (domains c)(Xi \<mapsto> removeAll x di)\<rparr>"
      from 2(3) Some False 2(4) have "revise_loop ?c1 Xi Xj xs True = Inr (c', r)" by simp
      then have "dsize c' Xi \<le> dsize ?c1 Xi" by (rule revise_loop_dsize)
      also have "dsize ?c1 Xi < dsize c Xi"
        using 2(4,5) by (simp add: dsize_def length_removeAll_less)
      finally show ?thesis by simp
    qed
  qed
qed

lemma revise_loop_revised_mono:
  "revise_loop c Xi Xj xs revised = Inr (c', r) \<Longrightarrow> revised \<Longrightarrow> r"
  by (induction c Xi Xj xs revised rule: revise_loop.induct)
     (auto split: option.splits if_splits)

lemma revise_loop_unrevised:
  "revise_loop c Xi Xj xs revised = Inr (c', False) \<Longrightarrow> c' = c"
  by (induction c Xi Xj xs revised rule: revise_loop.induct)
     (auto split: option.splits if_splits dest: revise_loop_revised_mono)

lemma revise_frame:
  "revise c Xi Xj = Inr (c', r) \<Longrightarrow>
     variables c' = variables c \<and> binary_constraints c' = binary_constraints c \<and>
     backtrack_counter c' = backtrack_counter c \<and> fail_counter c' = fail_counter c"
  by (auto simp: revise_def split: option.splits dest: revise_loop_frame)

lemma revise_dsize: "revise c Xi Xj = Inr (c', r) \<Longrightarrow> dsize c' v \<le> dsize c v"
  by (auto simp: revise_def split: option.splits dest: revise_loop_dsize)

lemma revise_strict: "revise c Xi Xj = Inr (c', True) \<Longrightarrow> dsize c' Xi < dsize c Xi"
  by (auto simp: revise_def split: option.splits dest: revise_loop_strict)

lemma revise_unrevised: "revise c Xi Xj = Inr (c', False) \<Longrightarrow> c' = c"
  by (auto simp: revise_def split: option.splits dest: revise_loop_unrevised)

definition work :: "('v, 'a) csp \<Rightarrow> ('v \<times> 'v) list \<Rightarrow> nat" where
  "work c queue = (\<Sum>v \<in> set (variables c) \<union> fst ` set queue. dsize c v)"

function ac_3_loop :: "('v, 'a) csp \<Rightarrow> ('v \<times> 'v) list \<Rightarrow> error + (('v, 'a) csp \<times> bool)" where
  "ac_3_loop c [] = Inr (c, True)"
| "ac_3_loop c ((Xi, Xj) # queue) =
     (case revise c Xi Xj of
        Inl e \<Rightarrow> Inl e
      | Inr (c', revised) \<Rightarrow>
          if revised then
            (case domains c' Xi of
               None \<Rightarrow> Inl KeyError
             | Some di \<Rightarrow>
                 if length di = 0 then Inr (c', False)
                 else ac_3_loop c' (queue @ requeue c' Xi Xj))
          else ac_3_loop c' queue)"
  by pat_completeness auto
termination
proof (relation "inv_image (less_than <*lex*> less_than) (\<lambda>(c, queue). (work c queue, length queue))",
       goal_cases)
  case 1
  show ?case by (intro wf_inv_image wf_lex_prod wf_less_than)
next
  case (2 c Xi Xj queue x2 x y x2a)
  then have rev: "revise c Xi Xj = Inr (x, True)" by simp
  note fr = revise_frame[OF rev]
  let ?S = "set (variables c) \<union> fst ` set ((Xi, Xj) # queue)"
  let ?S' = "set (variables x) \<union> fst ` set (queue @ requeue x Xi Xj)"
  have sub: "?S' \<subseteq> ?S" using fr by (auto simp: requeue_def)
  have "work x (queue @ requeue x Xi Xj) = (\<Sum>v \<in> ?S'. dsize x v)" by (simp add: work_def)
  also have "\<dots> \<le> (\<Sum>v \<in> ?S. dsize x v)"
    by (rule sum_mono2) (use sub in auto)
  also have "\<dots> < (\<Sum>v \<in> ?S. dsize c v)"
  proof (rule sum_strict_mono_ex1)
    show "finite ?S" by simp
    show "\<forall>v \<in> ?S. dsize x v \<le> dsize c v" using revise_dsize[OF rev] by simp
    show "\<exists>v \<in> ?S. dsize x v < dsize c v" using revise_strict[OF rev] by auto
  qed
  finally show ?case by (simp add: work_def)
next
  case (3 c Xi Xj queue x2 x y)
  then have rev: "revise c Xi Xj = Inr (x, False)" by simp
  from revise_unrevised[OF rev] have xc: "x = c" .
  have "work c queue \<le> work c ((Xi, Xj) # queue)"
    unfolding work_def by (rule sum_mono2) auto
  then show ?case using xc by auto
qed

definition ac_3 :: "('v, 'a) csp \<Rightarrow> error + (('v, 'a) csp \<times> bool)" where
  "ac_3 c = ac_3_loop c (initial_queue c)"

definition backtracking_search :: "('v, 'a) csp \<Rightarrow> error + (('v, 'a) csp \<times> ('v, 'a) assignment option)" where
  "backtracking_search c = backtrack c Map.empty"


definition alldiff :: "'v list \<Rightarrow> ('v \<times> 'v) list" where
  "alldiff vs = [(vs ! i, vs ! j). i \<leftarrow> [0..<length vs - 1], j \<leftarrow> [i + 1..<length vs]]"

section \<open>Game-tree search (adversarial\_search)\<close>

datatype score = NegInf | Fin int | PosInf

instantiation score :: linorder
begin

fun less_eq_score :: "score \<Rightarrow> score \<Rightarrow> bool" where
  "less_eq_score NegInf _ = True"
| "less_eq_score (Fin a) NegInf = False"
| "less_eq_score (Fin a) (Fin b) = (a \<le> b)"
| "less_eq_score (Fin a) PosInf = True"
| "less_eq_score PosInf PosInf = True"
| "less_eq_score PosInf _ = False"

definition less_score :: "score \<Rightarrow> score \<Rightarrow> bool" where
  "less_score x y = (x \<le> y \<and> \<not> y \<le> x)"

instance
proof
  fix x y z :: score
  show "(x < y) = (x \<le> y \<and> \<not> y \<le> x)" by (simp add: less_score_def)
  show "x \<le> x" by (cases x) auto
  show "x \<le> y \<Longrightarrow> y \<le> z \<Longrightarrow> x \<le> z" by (cases x; cases y; cases z) auto
  show "x \<le> y \<Longrightarrow> y \<le> x \<Longrightarrow> x = y" by (cases x; cases y) auto
  show "x \<le> y \<or> y \<le> x" by (cases x; cases y) auto
qed

end

datatype 'a move = MoveNone | MoveNegInf | MovePosInf | Move 'a

record ('s, 'a) game =
  to_move :: "'s \<Rightarrow> int"
  actions :: "'s \<Rightarrow> 'a list"
  result :: "'s \<Rightarrow> 'a \<Rightarrow> error + 's"
  is_terminal :: "'s \<Rightarrow> bool"
  utility :: "'s \<Rightarrow> int \<Rightarrow> error + int"

type_synonym 'a search_result = "(error + (score \<times> 'a move)) option"

fun max_loop :: "('s \<Rightarrow> 'a search_result) \<Rightarrow> ('s, 'a) game \<Rightarrow> 's \<Rightarrow> 'a list \<Rightarrow> score \<Rightarrow> 'a move \<Rightarrow>
    'a search_result" where
  "max_loop child g state [] v move = Some (Inr (v, move))"
| "max_loop child g state (a # as) v move =
     (case result g state a of
        Inl e \<Rightarrow> Some (Inl e)
      | Inr state' \<Rightarrow>
          (case child state' of
             None \<Rightarrow> None
           | Some (Inl e) \<Rightarrow> Some (Inl e)
           | Some (Inr (v2, a2)) \<Rightarrow>
               if v2 > v then max_loop child g state as v2 (Move a)
               else max_loop child g state as v move))"

fun min_loop :: "('s \<Rightarrow> 'a search_result) \<Rightarrow> ('s, 'a) game \<Rightarrow> 's \<Rightarrow> 'a list \<Rightarrow> score \<Rightarrow> 'a move \<Rightarrow>
    'a search_result" where
  "min_loop child g state [] v move = Some (Inr (v, move))"
| "min_loop child g state (a # as) v move =
     (case result g state a of
        Inl e \<Rightarrow> Some (Inl e)
      | Inr state' \<Rightarrow>
          (case child state' of
             None \<Rightarrow> None
           | Some (Inl e) \<Rightarrow> Some (Inl e)
           | Some (Inr (v2, a2)) \<Rightarrow>
               if v2 < v then min_loop child g state as v2 (Move a)
               else min_loop child g state as v move))"

definition terminal_value :: "('s, 'a) game \<Rightarrow> int \<Rightarrow> 's \<Rightarrow> 'a search_result" where
  "terminal_value g player state =
     (case utility g state player of Inl e \<Rightarrow> Some (Inl e) | Inr u \<Rightarrow> Some (Inr (Fin u, MoveNone)))"

fun max_value :: "nat \<Rightarrow> ('s, 'a) game \<Rightarrow> int \<Rightarrow> 's \<Rightarrow> 'a search_result"
and min_value :: "nat \<Rightarrow> ('s, 'a) game \<Rightarrow> int \<Rightarrow> 's \<Rightarrow> 'a search_result" where
  "max_value 0 g player state = None"
| "max_value (Suc fuel) g player state =
     (if is_terminal g state then terminal_value g player state
      else max_loop (min_value fuel g player) g state (actions g state) NegInf MoveNegInf)"
| "min_value 0 g player state = None"
| "min_value (Suc fuel) g player state =
     (if is_terminal g state then terminal_value g player state
      else min_loop (max_value fuel g player) g state (actions g state) PosInf MovePosInf)"


definition minimax_search :: "nat \<Rightarrow> ('s, 'a) game \<Rightarrow> int \<Rightarrow> 's \<Rightarrow> (error + 'a move) option" where
  "minimax_search fuel g player state =
     (case max_value fuel g player state of
        None \<Rightarrow> None
      | Some (Inl e) \<Rightarrow> Some (Inl e)
      | Some (Inr (v, move)) \<Rightarrow> Some (Inr move))"

definition return_bound :: "score \<Rightarrow> 'a move option \<Rightarrow> 'a search_result" where
  "return_bound v move =
     (case move of None \<Rightarrow> Some (Inl UnboundLocalError) | Some m \<Rightarrow> Some (Inr (v, m)))"

fun max_loop_ab :: "('s \<Rightarrow> score \<Rightarrow> score \<Rightarrow> 'a search_result) \<Rightarrow> ('s, 'a) game \<Rightarrow> 's \<Rightarrow> 'a list \<Rightarrow>
    score \<Rightarrow> 'a move option \<Rightarrow> score \<Rightarrow> score \<Rightarrow> 'a search_result" where
  "max_loop_ab child g state [] v move alpha beta = return_bound v move"
| "max_loop_ab child g state (a # as) v move alpha beta =
     (case result g state a of
        Inl e \<Rightarrow> Some (Inl e)
      | Inr state' \<Rightarrow>
          (case child state' alpha beta of
             None \<Rightarrow> None
           | Some (Inl e) \<Rightarrow> Some (Inl e)
           | Some (Inr (v2, a2)) \<Rightarrow>
               if v2 > v then
                 (if v2 \<ge> beta then return_bound v2 (Some (Move a))
                  else max_loop_ab child g state as v2 (Some (Move a)) (max alpha v2) beta)
               else
                 (if v \<ge> beta then return_bound v move
                  else max_loop_ab child g state as v move alpha beta)))"

fun min_loop_ab :: "('s \<Rightarrow> score \<Rightarrow> score \<Rightarrow> 'a search_result) \<Rightarrow> ('s, 'a) game \<Rightarrow> 's \<Rightarrow> 'a list \<Rightarrow>
    score \<Rightarrow> 'a move \<Rightarrow> score \<Rightarrow> score \<Rightarrow> 'a search_result" where
  "min_loop_ab child g state [] v move alpha beta = Some (Inr (v, move))"
| "min_loop_ab child g state (a # as) v move alpha beta =
     (case result g state a of
        Inl e \<Rightarrow> Some (Inl e)
      | Inr state' \<Rightarrow>
          (case child state' alpha beta of
             None \<Rightarrow> None
           | Some (Inl e) \<Rightarrow> Some (Inl e)
           | Some (Inr (v2, a2)) \<Rightarrow>
               if v2 < v then
                 (if v2 \<le> alpha then Some (Inr (v2, Move a))
                  else min_loop_ab child g state as v2 (Move a) alpha (min beta v2))
               else
                 (if v \<le> alpha then Some (Inr (v, move))
                  else min_loop_ab child g state as v move alpha beta)))"

fun max_value_ab :: "nat \<Rightarrow> ('s, 'a) game \<Rightarrow> int \<Rightarrow> 's \<Rightarrow> score \<Rightarrow> score \<Rightarrow> 'a search_result"
and min_value_ab :: "nat \<Rightarrow> ('s, 'a) game \<Rightarrow> int \<Rightarrow> 's \<Rightarrow> score \<Rightarrow> score \<Rightarrow> 'a search_result" where
  "max_value_ab 0 g player state alpha beta = None"
| "max_value_ab (Suc fuel) g player state alpha beta =
     (if is_terminal g state then terminal_value g player state
      else max_loop_ab (min_value_ab fuel g player) g state (actions g state) NegInf None alpha beta)"
| "min_value_ab 0 g player state alpha beta = None"
| "min_value_ab (Suc fuel) g player state alpha beta =
     (if is_terminal g state then terminal_value g player state
      else min_loop_ab (max_value_ab fuel g player) g state (actions g state) PosInf MovePosInf alpha beta)"

definition alpha_beta_search :: "nat \<Rightarrow> ('s, 'a) game \<Rightarrow> int \<Rightarrow> 's \<Rightarrow> (error + 'a move) option" where
  "alpha_beta_search fuel g player state =
     (case max_value_ab fuel g player state NegInf PosInf of
        None \<Rightarrow> None
      | Some (Inl e) \<Rightarrow> Some (Inl e)
      | Some (Inr (v, move)) \<Rightarrow> Some (Inr move))"


subsection \<open>The halving game (halving\_game.py)\<close>

type_synonym halving_state = "int \<times> int"

definition halving_to_move :: "halving_state \<Rightarrow> int" where
  "halving_to_move state = fst state"

definition halving_actions :: "halving_state \<Rightarrow> string list" where
  "halving_actions state = [''--'', ''/2'']"

definition halving_result :: "halving_state \<Rightarrow> string move \<Rightarrow> halving_state" where
  "halving_result state action =
     (if action = Move ''--'' then ((halving_to_move state + 1) mod 2, snd state - 1)
      else ((halving_to_move state + 1) mod 2, snd state div 2))"

definition halving_is_terminal :: "halving_state \<Rightarrow> bool" where
  "halving_is_terminal state = (snd state = 0)"

definition halving_utility :: "halving_state \<Rightarrow> int \<Rightarrow> error + int" where
  "halving_utility state player =
     (if \<not> halving_is_terminal state then Inl AssertionError
      else Inr (if halving_to_move state = player then 1 else - 1))"

definition halving_initial_state :: "int \<Rightarrow> halving_state" where
  "halving_initial_state N = (0, N)"

definition halving_Game :: "(halving_state, string) game" where
  "halving_Game = \<lparr>to_move = halving_to_move, actions = halving_actions,
     result = (\<lambda>state a. Inr (halving_result state (Move a))),
     is_terminal = halving_is_terminal, utility = halving_utility\<rparr>"

fun halving_play :: "nat \<Rightarrow> nat \<Rightarrow> halving_state \<Rightarrow> (error + (string move list \<times> halving_state)) option" where
  "halving_play 0 fuel state = None"
| "halving_play (Suc steps) fuel state =
     (if halving_is_terminal state then Some (Inr ([], state))
      else
        (case minimax_search fuel halving_Game (halving_to_move state) state of
           None \<Rightarrow> None
         | Some (Inl e) \<Rightarrow> Some (Inl e)
         | Some (Inr action) \<Rightarrow>
             if action = MoveNone then Some (Inl AssertionError)
             else
               (case halving_play steps fuel (halving_result state action) of
                  None \<Rightarrow> None
                | Some (Inl e) \<Rightarrow> Some (Inl e)
                | Some (Inr (trace, final)) \<Rightarrow> Some (Inr (action # trace, final)))))"

subsection \<open>The bucket game (bucket\_game.py)\<close>

datatype entry = Bucket string | Number int

type_synonym bucket_state = "int \<times> entry list"

definition bucket_to_move :: "bucket_state \<Rightarrow> int" where
  "bucket_to_move state = fst state"

definition bucket_actions :: "bucket_state \<Rightarrow> entry list" where
  "bucket_actions state = snd state"

definition bucket_result :: "bucket_state \<Rightarrow> entry \<Rightarrow> error + bucket_state" where
  "bucket_result state action =
     (if action = Bucket ''A'' then Inr ((bucket_to_move state + 1) mod 2, [Number (- 50), Number 50])
      else if action = Bucket ''B'' then Inr ((bucket_to_move state + 1) mod 2, [Number 3, Number 1])
      else if action = Bucket ''C'' then Inr ((bucket_to_move state + 1) mod 2, [Number (- 5), Number 15])
      else (case action of
              Bucket s \<Rightarrow> Inl AssertionError
            | Number n \<Rightarrow> Inr ((bucket_to_move state + 1) mod 2, [action])))"

definition bucket_is_terminal :: "bucket_state \<Rightarrow> bool" where
  "bucket_is_terminal state = (length (snd state) = 1)"

definition bucket_utility :: "bucket_state \<Rightarrow> int \<Rightarrow> error + int" where
  "bucket_utility state player =
     (if \<not> bucket_is_terminal state then Inl AssertionError
      else (case hd (snd state) of
              Bucket s \<Rightarrow> Inl AssertionError
            | Number n \<Rightarrow> Inr (if player = bucket_to_move state then n else - n)))"

definition bucket_initial_state :: bucket_state where
  "bucket_initial_state = (0, [Bucket ''A'', Bucket ''B'', Bucket ''C''])"

definition bucket_Game :: "(bucket_state, entry) game" where
  "bucket_Game = \<lparr>to_move = bucket_to_move, actions = bucket_actions, result = bucket_result,
     is_terminal = bucket_is_terminal, utility = bucket_utility\<rparr>"

subsection \<open>Tic-tac-toe (tic\_tac\_toe.py)\<close>

type_synonym board = "int option list list"
type_synonym ttt_state = "int \<times> board"

definition ttt_initial_state :: ttt_state where
  "ttt_initial_state = (0, [[None, None, None], [None, None, None], [None, None, None]])"

definition ttt_to_move :: "ttt_state \<Rightarrow> int" where
  "ttt_to_move state = fst state"

definition ttt_actions :: "ttt_state \<Rightarrow> (nat \<times> nat) list" where
  "ttt_actions state =
     [(row, col). row \<leftarrow> [0..<3], col \<leftarrow> [0..<3], snd state ! row ! col = None]"

definition ttt_result :: "ttt_state \<Rightarrow> nat \<times> nat \<Rightarrow> error + ttt_state" where
  "ttt_result state action =
     (let board = snd state; row = fst action; col = snd action in
      if row < length board \<and> col < length (board ! row) then
        Inr ((ttt_to_move state + 1) mod 2, board[row := (board ! row)[col := Some (ttt_to_move state)]])
      else Inl IndexError)"

definition ttt_is_winner :: "ttt_state \<Rightarrow> int \<Rightarrow> bool" where
  "ttt_is_winner state player =
     (let board = snd state in
      if \<exists>row \<in> set [0..<3]. \<forall>col \<in> set [0..<3]. board ! row ! col = Some player then True
      else if \<exists>col \<in> set [0..<3]. \<forall>row \<in> set [0..<3]. board ! row ! col = Some player then True
      else if \<forall>i \<in> set [0..<3]. board ! i ! i = Some player then True
      else \<forall>i \<in> set [0..<3]. board ! i ! (2 - i) = Some player)"

definition ttt_is_terminal :: "ttt_state \<Rightarrow> bool" where
  "ttt_is_terminal state =
     (if ttt_is_winner state ((ttt_to_move state + 1) mod 2) then True
      else \<forall>row \<in> set [0..<3]. \<forall>col \<in> set [0..<3]. snd state ! row ! col \<noteq> None)"

definition ttt_utility :: "ttt_state \<Rightarrow> int \<Rightarrow> error + int" where
  "ttt_utility state player =
     (if \<not> ttt_is_terminal state then Inl AssertionError
      else if ttt_is_winner state player then Inr 1
      else if ttt_is_winner state ((player + 1) mod 2) then Inr (- 1)
      else Inr 0)"

definition ttt_Game :: "(ttt_state, nat \<times> nat) game" where
  "ttt_Game = \<lparr>to_move = ttt_to_move, actions = ttt_actions, result = ttt_result,
     is_terminal = ttt_is_terminal, utility = ttt_utility\<rparr>"

definition wf_board :: "board \<Rightarrow> bool" where
  "wf_board b = (length b = 3 \<and> (\<forall>row \<in> set b. length row = 3))"


section \<open>Notions used in the statements\<close>

definition dom_set :: "('v, 'a) csp \<Rightarrow> 'v \<Rightarrow> 'a set" where
  "dom_set c v = (case domains c v of None \<Rightarrow> {} | Some d \<Rightarrow> set d)"

text \<open>The instance built by \<open>CSP(['X', 'Y'], {'X': {1}, 'Y': {1, 2}}, [('Y', 'X')])\<close>.\<close>

definition example_csp :: "(string, int) csp" where
  "example_csp = \<lparr>variables = [''X'', ''Y''],
     domains = [''X'' \<mapsto> [1], ''Y'' \<mapsto> [1, 2]],
     binary_constraints = [(''Y'', ''X'') \<mapsto> {(1, 2), (2, 1)}],
     backtrack_counter = 0, fail_counter = 0\<rparr>"


section \<open>Properties\<close>

lemma backtrack_frame:
  "backtrack c a = Inr (c', r) \<Longrightarrow>
     variables c' = variables c \<and> domains c' = domains c \<and> binary_constraints c' = binary_constraints c"
  "backtrack_values c a var vals = Inr (c', r) \<Longrightarrow>
     variables c' = variables c \<and> domains c' = domains c \<and> binary_constraints c' = binary_constraints c"
proof (induction c a and c a var vals arbitrary: c' r and c' r rule: backtrack_backtrack_values.induct)
  case (1 c assignment)
  let ?c1 = "c\<lparr>backtrack_counter := backtrack_counter c + 1\<rparr>"
  show ?case
  proof (cases "is_complete ?c1 assignment")
    case True
    with 1(2) show ?thesis by (auto simp: backtrack.simps[of c assignment] Let_def)
  next
    case False
    with 1(2) obtain var vals where
      sel: "select_unassigned_variable ?c1 assignment = Some var" and
      ord: "order_domain_values ?c1 var = Inr vals" and
      bv: "backtrack_values ?c1 assignment var vals = Inr (c', r)"
      by (auto simp: backtrack.simps[of c assignment] Let_def split: option.splits sum.splits)
    from 1(1)[OF refl False sel ord bv] show ?thesis by simp
  qed
next
  case (2 c assignment var)
  then show ?case by auto
next
  case (3 c assignment var val rest)
  show ?case
  proof (cases "is_consistent c val var assignment")
    case False
    with 3 show ?thesis by auto
  next
    case True
    with 3(4) obtain c1 r1 where b: "backtrack c (assignment(var \<mapsto> val)) = Inr (c1, r1)"
      by (auto split: sum.splits)
    note f1 = 3(1)[OF True b]
    show ?thesis
    proof (cases r1)
      case None
      with 3(4) True b have "backtrack_values c1 assignment var rest = Inr (c', r)" by simp
      from 3(2)[OF True b refl None this] f1 show ?thesis by simp
    next
      case (Some res)
      with 3(4) True b have "c' = c1" by simp
      with f1 show ?thesis by simp
    qed
  qed
qed

lemma revise_loop_domains:
  "revise_loop c Xi Xj xs revised = Inr (c', r) \<Longrightarrow>
     dom_set c' v \<subseteq> dom_set c v \<and> (domains c' v = None \<longleftrightarrow> domains c v = None)"
proof (induction c Xi Xj xs revised rule: revise_loop.induct)
  case (1 c Xi Xj revised)
  then show ?case by simp
next
  case (2 c Xi Xj x xs revised)
  show ?case
  proof (cases "domains c Xj")
    case None
    with 2(3) show ?thesis by simp
  next
    case (Some dj)
    show ?thesis
    proof (cases "\<exists>y \<in> set dj. (x, y) \<in> allowed_pairs c Xi Xj")
      case True
      with 2(2)[OF Some] 2(3) Some show ?thesis by simp
    next
      case False
      with 2(3) Some obtain di where di: "domains c Xi = Some di"
        by (auto split: option.splits)
      let ?c1 = "c\<lparr>domains := (domains c)(Xi \<mapsto> removeAll x di)\<rparr>"
      from 2(3) Some False di have "revise_loop ?c1 Xi Xj xs True = Inr (c', r)" by simp
      from 2(1)[OF Some False di this]
      have "dom_set c' v \<subseteq> dom_set ?c1 v \<and> (domains c' v = None \<longleftrightarrow> domains ?c1 v = None)" .
      moreover have "dom_set ?c1 v \<subseteq> dom_set c v \<and> (domains ?c1 v = None \<longleftrightarrow> domains c v = None)"
        using di by (auto simp: dom_set_def)
      ultimately show ?thesis by auto
    qed
  qed
qed

lemma revise_domains:
  "revise c Xi Xj = Inr (c', r) \<Longrightarrow>
     dom_set c' v \<subseteq> dom_set c v \<and> (domains c' v = None \<longleftrightarrow> domains c v = None)"
  unfolding revise_def by (auto split: option.splits dest: revise_loop_domains[where v = v])

lemma ac_3_loop_domains:
  "ac_3_loop c queue = Inr (c', b) \<Longrightarrow>
     dom_set c' v \<subseteq> dom_set c v \<and> (domains c' v = None \<longleftrightarrow> domains c v = None)"
proof (induction c queue rule: ac_3_loop.induct)
  case (1 c)
  then show ?case by simp
next
  case (2 c Xi Xj queue)
  from 2(3) obtain c1 revised where rev: "revise c Xi Xj = Inr (c1, revised)"
    by (auto split: sum.splits)
  note d1 = revise_domains[OF rev, of v]
  show ?case
  proof (cases revised)
    case False
    with 2(3) rev have "ac_3_loop c1 queue = Inr (c', b)" by simp
    from 2(2)[OF rev refl False this] d1 show ?thesis by auto
  next
    case True
    with 2(3) rev obtain di where di: "domains c1 Xi = Some di"
      by (auto split: option.splits)
    show ?thesis
    proof (cases "length di = 0")
      case True
      with 2(3) rev \<open>revised\<close> di have "c' = c1" by simp
      with d1 show ?thesis by simp
    next
      case False
      with 2(3) rev \<open>revised\<close> di
      have "ac_3_loop c1 (queue @ requeue c1 Xi Xj) = Inr (c', b)" by simp
      from 2(1)[OF rev refl \<open>revised\<close> di False this] d1 show ?thesis by auto
    qed
  qed
qed


lemma example_csp_constructed:
  "CSP [''X'', ''Y''] [''X'' \<mapsto> [1], ''Y'' \<mapsto> [1, 2::int]] [(''Y'', ''X'')] = Inr example_csp"
  by (auto simp: CSP_def example_csp_def constraint_pairs_def)

lemma example_csp_ac_3:
  "ac_3 example_csp = Inr (example_csp\<lparr>domains := [''X'' \<mapsto> [1], ''Y'' \<mapsto> [2]]\<rparr>, True)"
  by (simp add: ac_3_def example_csp_def initial_queue_def revise_def allowed_pairs_def requeue_def)

lemma example_csp_revise:
  "revise example_csp ''Y'' ''X'' =
     Inr (example_csp\<lparr>domains := [''X'' \<mapsto> [1], ''Y'' \<mapsto> [2]]\<rparr>, True)"
  by (simp add: example_csp_def revise_def allowed_pairs_def)

lemma example_csp_search:
  "backtracking_search example_csp =
     Inr (example_csp\<lparr>backtrack_counter := 3\<rparr>, Some [''X'' \<mapsto> 1, ''Y'' \<mapsto> 2])"
  by (simp add: backtracking_search_def example_csp_def backtrack.simps is_complete_def
      select_unassigned_variable_def order_domain_values_def is_consistent_def violates_def)

lemma alldiff_Nil: "alldiff [] = []"
  by (simp add: alldiff_def)

lemma alldiff_row: "map (\<lambda>j. (x, (x # xs) ! j)) [Suc 0..<Suc (length xs)] = map (Pair x) xs"
proof -
  have "map (\<lambda>j. (x, (x # xs) ! j)) [Suc 0..<Suc (length xs)]
      = map (\<lambda>j. (x, (x # xs) ! j)) (map Suc [0..<length xs])"
    by (simp only: map_Suc_upt)
  also have "\<dots> = map (\<lambda>j. (x, xs ! j)) [0..<length xs]" by simp
  also have "\<dots> = map (Pair x) (map (\<lambda>j. xs ! j) [0..<length xs])" by simp
  also have "\<dots> = map (Pair x) xs" by (simp only: map_nth)
  finally show ?thesis .
qed

lemma alldiff_rest:
  "concat (map (\<lambda>i. map (\<lambda>j. ((x # xs) ! i, (x # xs) ! j)) [i + 1..<Suc (length xs)]) [Suc 0..<length xs])
   = alldiff xs"
proof -
  have "[Suc 0..<length xs] = map Suc [0..<length xs - 1]"
    by (cases xs) (simp_all add: map_Suc_upt)
  then have "concat (map (\<lambda>i. map (\<lambda>j. ((x # xs) ! i, (x # xs) ! j)) [i + 1..<Suc (length xs)]) [Suc 0..<length xs])
     = concat (map (\<lambda>i. map (\<lambda>j. (xs ! i, (x # xs) ! j)) [Suc (i + 1)..<Suc (length xs)]) [0..<length xs - 1])"
    by (simp add: comp_def)
  also have "\<dots> = concat (map (\<lambda>i. map (\<lambda>j. (xs ! i, (x # xs) ! j)) (map Suc [i + 1..<length xs])) [0..<length xs - 1])"
    by (simp only: map_Suc_upt)
  also have "\<dots> = alldiff xs"
    by (simp add: alldiff_def comp_def)
  finally show ?thesis .
qed

lemma alldiff_Cons: "alldiff (x # xs) = map (Pair x) xs @ alldiff xs"
proof (cases xs)
  case Nil
  then show ?thesis by (simp add: alldiff_def)
next
  case (Cons y ys)
  then have "0 < length xs" by simp
  then have "[0..<length xs] = 0 # [Suc 0..<length xs]"
    by (rule upt_conv_Cons)
  then have "alldiff (x # xs) =
      map (\<lambda>j. (x, (x # xs) ! j)) [Suc 0..<Suc (length xs)] @
      concat (map (\<lambda>i. map (\<lambda>j. ((x # xs) ! i, (x # xs) ! j)) [i + 1..<Suc (length xs)]) [Suc 0..<length xs])"
    by (simp add: alldiff_def)
  then show ?thesis by (simp only: alldiff_row alldiff_rest)
qed

lemma set_alldiff_subset: "(a, b) \<in> set (alldiff vs) \<Longrightarrow> a \<in> set vs \<and> b \<in> set vs"
  by (induction vs) (auto simp: alldiff_Nil alldiff_Cons)

lemma length_alldiff: "length (alldiff vs) = length vs * (length vs - 1) div 2"
proof (induction vs)
  case Nil
  then show ?case by (simp add: alldiff_Nil)
next
  case (Cons x xs)
  have "length (alldiff (x # xs)) = length xs + length xs * (length xs - 1) div 2"
    by (simp add: alldiff_Cons Cons.IH)
  also have "\<dots> = (2 * length xs + length xs * (length xs - 1)) div 2" by simp
  also have "2 * length xs + length xs * (length xs - 1) = Suc (length xs) * length xs"
    by (cases "length xs") simp_all
  finally show ?case by simp
qed

lemma distinct_alldiff: "distinct vs \<Longrightarrow> distinct (alldiff vs)"
  by (induction vs) (auto simp: alldiff_Nil alldiff_Cons distinct_map inj_on_def dest: set_alldiff_subset)

lemma alldiff_no_self: "distinct vs \<Longrightarrow> (a, b) \<in> set (alldiff vs) \<Longrightarrow> a \<noteq> b"
  by (induction vs) (auto simp: alldiff_Nil alldiff_Cons)

lemma alldiff_one_orientation:
  "distinct vs \<Longrightarrow> (a, b) \<in> set (alldiff vs) \<Longrightarrow> (b, a) \<notin> set (alldiff vs)"
  by (induction vs) (auto simp: alldiff_Nil alldiff_Cons dest: set_alldiff_subset)

lemma alldiff_covers:
  "a \<in> set vs \<Longrightarrow> b \<in> set vs \<Longrightarrow> a \<noteq> b \<Longrightarrow> (a, b) \<in> set (alldiff vs) \<or> (b, a) \<in> set (alldiff vs)"
  by (induction vs) (auto simp: alldiff_Nil alldiff_Cons)


subsection \<open>\<open>alldiff\<close> lists every unordered pair once\<close>

text \<open>
  C7. For a list of \<open>n\<close> distinct variables, \<open>alldiff\<close> returns exactly
  \<open>n * (n - 1) / 2\<close> edges; no edge occurs twice, every edge joins two different input
  variables, no pair occurs in both orientations, and every unordered pair of distinct input
  variables occurs (in one orientation).
\<close>

theorem alldiff_all_pairs_once:
  assumes "distinct vs"
  shows "length (alldiff vs) = length vs * (length vs - 1) div 2 \<and>
         distinct (alldiff vs) \<and>
         (\<forall>(a, b) \<in> set (alldiff vs). a \<in> set vs \<and> b \<in> set vs \<and> a \<noteq> b \<and> (b, a) \<notin> set (alldiff vs)) \<and>
         (\<forall>a \<in> set vs. \<forall>b \<in> set vs. a \<noteq> b \<longrightarrow> (a, b) \<in> set (alldiff vs) \<or> (b, a) \<in> set (alldiff vs))"
proof (intro conjI)
  show "length (alldiff vs) = length vs * (length vs - 1) div 2"
    by (rule length_alldiff)
  show "distinct (alldiff vs)"
    using assms by (rule distinct_alldiff)
  show "\<forall>(a, b) \<in> set (alldiff vs). a \<in> set vs \<and> b \<in> set vs \<and> a \<noteq> b \<and> (b, a) \<notin> set (alldiff vs)"
    using assms set_alldiff_subset alldiff_no_self alldiff_one_orientation by fast
  show "\<forall>a \<in> set vs. \<forall>b \<in> set vs. a \<noteq> b \<longrightarrow> (a, b) \<in> set (alldiff vs) \<or> (b, a) \<in> set (alldiff vs)"
    using alldiff_covers by fast
qed

theorem alldiff_all_pairs_once_witness:
  "distinct [''X'', ''Y'', ''Z''] \<and>
   alldiff [''X'', ''Y'', ''Z''] = [(''X'', ''Y''), (''X'', ''Z''), (''Y'', ''Z'')] \<and>
   length (alldiff [''X'', ''Y'', ''Z'']) = length [''X'', ''Y'', ''Z''] * (length [''X'', ''Y'', ''Z''] - 1) div 2"
proof -
  have d: "distinct [''X'', ''Y'', ''Z'']" by simp
  have e: "alldiff [''X'', ''Y'', ''Z''] = [(''X'', ''Y''), (''X'', ''Z''), (''Y'', ''Z'')]"
    by (simp add: alldiff_Cons alldiff_Nil)
  from alldiff_all_pairs_once[OF d] d e show ?thesis by blast
qed

subsection \<open>Domains only shrink\<close>

text \<open>
  C5. Whenever \<open>ac_3\<close> returns (true or false), the domain of every variable afterwards is a
  subset of its domain before; the same holds for a single \<open>revise\<close>, and
  \<open>backtracking_search\<close> leaves every domain as it was. No operation of the class adds a value
  to a domain.
\<close>

theorem domains_never_grow:
  "(ac_3 c = Inr (c1, b) \<longrightarrow> dom_set c1 v \<subseteq> dom_set c v) \<and>
   (revise c Xi Xj = Inr (c2, r) \<longrightarrow> dom_set c2 v \<subseteq> dom_set c v) \<and>
   (backtracking_search c = Inr (c3, s) \<longrightarrow> dom_set c3 v = dom_set c v)"
proof (intro conjI impI)
  assume "ac_3 c = Inr (c1, b)"
  then show "dom_set c1 v \<subseteq> dom_set c v"
    unfolding ac_3_def by (auto dest: ac_3_loop_domains[where v = v])
next
  assume "revise c Xi Xj = Inr (c2, r)"
  then show "dom_set c2 v \<subseteq> dom_set c v"
    by (auto dest: revise_domains[where v = v])
next
  assume "backtracking_search c = Inr (c3, s)"
  then have "domains c3 = domains c"
    unfolding backtracking_search_def by (auto dest: backtrack_frame(1))
  then show "dom_set c3 v = dom_set c v" by (simp add: dom_set_def)
qed

theorem domains_never_grow_witness:
  "ac_3 example_csp = Inr (example_csp\<lparr>domains := [''X'' \<mapsto> [1], ''Y'' \<mapsto> [2]]\<rparr>, True) \<and>
   revise example_csp ''Y'' ''X'' =
     Inr (example_csp\<lparr>domains := [''X'' \<mapsto> [1], ''Y'' \<mapsto> [2]]\<rparr>, True) \<and>
   backtracking_search example_csp =
     Inr (example_csp\<lparr>backtrack_counter := 3\<rparr>, Some [''X'' \<mapsto> 1, ''Y'' \<mapsto> 2]) \<and>
   dom_set (example_csp\<lparr>domains := [''X'' \<mapsto> [1], ''Y'' \<mapsto> [2]]\<rparr>) ''Y''
     \<subseteq> dom_set example_csp ''Y'' \<and>
   dom_set (example_csp\<lparr>backtrack_counter := 3\<rparr>) ''Y'' = dom_set example_csp ''Y''"
  using domains_never_grow[of example_csp
      "example_csp\<lparr>domains := [''X'' \<mapsto> [1], ''Y'' \<mapsto> [2]]\<rparr>" True "''Y''" "''Y''" "''X''"
      "example_csp\<lparr>domains := [''X'' \<mapsto> [1], ''Y'' \<mapsto> [2]]\<rparr>" True
      "example_csp\<lparr>backtrack_counter := 3\<rparr>" "Some [''X'' \<mapsto> 1, ''Y'' \<mapsto> 2]"]
    example_csp_ac_3 example_csp_revise example_csp_search
  by blast


subsection \<open>Backtracking search only touches the counters\<close>

text \<open>
  C10. Whatever \<open>backtracking_search\<close> returns, a solution or \<open>None\<close>, the variables list,
  every domain and the binary constraints of the instance are the same after the call as
  before: the instance differs from the original in the two counters at most.
\<close>

theorem backtracking_search_frame:
  assumes "backtracking_search c = Inr (c', r)"
  shows "variables c' = variables c \<and> domains c' = domains c \<and>
         binary_constraints c' = binary_constraints c \<and>
         c' = c\<lparr>backtrack_counter := backtrack_counter c', fail_counter := fail_counter c'\<rparr>"
proof -
  from assms have f: "variables c' = variables c \<and> domains c' = domains c \<and>
      binary_constraints c' = binary_constraints c"
    unfolding backtracking_search_def by (rule backtrack_frame(1))
  then have "c' = c\<lparr>backtrack_counter := backtrack_counter c', fail_counter := fail_counter c'\<rparr>"
    by (intro csp.equality) simp_all
  with f show ?thesis by simp
qed

theorem backtracking_search_frame_witness:
  "backtracking_search example_csp =
     Inr (example_csp\<lparr>backtrack_counter := 3\<rparr>, Some [''X'' \<mapsto> 1, ''Y'' \<mapsto> 2]) \<and>
   variables (example_csp\<lparr>backtrack_counter := 3\<rparr>) = variables example_csp \<and>
   domains (example_csp\<lparr>backtrack_counter := 3\<rparr>) = domains example_csp \<and>
   binary_constraints (example_csp\<lparr>backtrack_counter := 3\<rparr>) = binary_constraints example_csp"
  using backtracking_search_frame[OF example_csp_search] example_csp_search by blast

end
